theory Spec2Isabelle
  imports Complex_Main "HOL-Library.Multiset"
begin

section \<open>Kanban board: drag and drop (KanbanBoard, handleDragEnd)\<close>

text \<open>
  The board keeps the task list in React state (\<^verbatim>\<open>const [tasks, setTasks] = useState([])\<close>).
  A task is the object the list endpoint returns; the drag handler reads only its
  \<^verbatim>\<open>id\<close> and \<^verbatim>\<open>status\<close>, the other fields ride along.
\<close>

record task =
  id :: nat
  title :: string
  description :: string
  status :: string
  priority :: string
  task_type :: string
  is_recurring :: nat
  created_at :: string

text \<open>
  The drag event of the drag-and-drop library: \<^verbatim>\<open>const { active, over } = event\<close>.
  \<^verbatim>\<open>over\<close> is null when the drop has no target.
\<close>

record drag_event =
  active_id :: nat
  over_id :: "nat option"

text \<open>
  What the handler does to the outside world, in the order it does it: HTTP requests
  and console output. The body of a PUT is the list of the members of the JSON object
  sent.
\<close>

datatype effect =
    PutTask nat "(string \<times> string) list"
  | GetTasks
  | ConsoleError string

text \<open>
  The outcome of \<^verbatim>\<open>await fetch(...)\<close>: the promise resolves with a response
  (of any HTTP status code, which the code never reads) or rejects (network failure).
\<close>

datatype fetch_outcome = Resolved nat | Rejected

record board =
  tasks :: "task list"
  effects :: "effect list"

text \<open>
  The list React stores after the handler, when the library has put undefined into it
  (\<open>None\<close> at that index): it is no list of tasks any more, and the next render throws
  reading the status of undefined.
\<close>

datatype drag_error = UndefinedInList "task option list"

text \<open>\<^verbatim>\<open>Array.prototype.findIndex\<close>: the first index whose element satisfies the
  predicate, and -1 when there is none.\<close>

fun findIndex :: "('a \<Rightarrow> bool) \<Rightarrow> 'a list \<Rightarrow> int" where
  "findIndex P [] = - 1"
| "findIndex P (x # xs) =
     (if P x then 0
      else (let r = findIndex P xs in if r < 0 then - 1 else r + 1))"

text \<open>
  The index at which \<^verbatim>\<open>Array.prototype.splice\<close> starts, for an array of \<open>len\<close>
  elements: a negative start counts from the end and stops at 0, a start beyond the
  end is the end.
\<close>

definition splice_start :: "nat \<Rightarrow> int \<Rightarrow> nat" where
  "splice_start len start =
     (if start < 0 then nat (max (int len + start) 0) else min (nat start) len)"

text \<open>
  Modelled from the spec: \<^verbatim>\<open>arrayMove\<close> is imported from the drag-and-drop
  library (\<^verbatim>\<open>@dnd-kit/sortable\<close>) and its code is not part of the sources. The
  spec describes it as a move-to-index, "remove then reinsert": the element at index
  \<open>from\<close> is taken out and put back at index \<open>to\<close> of the remaining list. The model
  does this the way the library does, on a copy of the array, as
  \<^verbatim>\<open>newArray.splice(to < 0 ? newArray.length + to : to, 0, newArray.splice(from, 1)[0])\<close>,
  so that an index outside the list behaves as \<^verbatim>\<open>splice\<close> makes it: the insertion
  index is computed first, on the full length; \<^verbatim>\<open>splice(from, 1)\<close> takes out one
  element, or none when its start is the end of the array, and then what is reinserted
  is undefined. The result is a list of slots, \<open>None\<close> for undefined.
\<close>

definition arrayMove :: "'a list \<Rightarrow> int \<Rightarrow> int \<Rightarrow> 'a option list" where
  "arrayMove array from to =
     (let target = (if to < 0 then int (length array) + to else to);
          s = splice_start (length array) from;
          item = (case drop s array of [] \<Rightarrow> None | x # _ \<Rightarrow> Some x);
          rest = take s array @ drop (Suc s) array;
          k = splice_start (length rest) target
      in map Some (take k rest) @ item # map Some (drop k rest))"

text \<open>
  \<^verbatim>\<open>updateTaskStatus(taskId, newStatus)\<close>: the PUT carries
  \<^verbatim>\<open>JSON.stringify({ status: newStatus })\<close>; \<^verbatim>\<open>fetchTasks()\<close> is the statement
  after the \<^verbatim>\<open>await\<close> inside the \<^verbatim>\<open>try\<close>, so a rejected request goes to the
  \<^verbatim>\<open>catch\<close>, which logs.
\<close>

definition updateTaskStatus :: "fetch_outcome \<Rightarrow> nat \<Rightarrow> string \<Rightarrow> effect list" where
  "updateTaskStatus put taskId newStatus =
     PutTask taskId [(''status'', newStatus)] #
       (case put of
          Resolved code \<Rightarrow> [GetTasks]
        | Rejected \<Rightarrow> [ConsoleError ''Failed to update task:''])"

text \<open>
  The updater passed to \<^verbatim>\<open>setTasks\<close> in the same-column branch. It computes both
  indices anew, on the list \<open>items\<close> it is given.
\<close>

definition reorder :: "nat \<Rightarrow> nat \<Rightarrow> task list \<Rightarrow> task option list" where
  "reorder activeId overId items =
     (let oldIndex = findIndex (\<lambda>i. id i = activeId) items;
          newIndex = findIndex (\<lambda>i. id i = overId) items
      in arrayMove items oldIndex newIndex)"

text \<open>
  \<^verbatim>\<open>handleDragEnd(event)\<close>. The handler works on two lists. \<open>ts\<close> is the
  \<^verbatim>\<open>tasks\<close> of the render that created the handler: the two lookups and the
  comparison of the status read it. \<open>items\<close> is the list React holds as the pending
  state when it runs the updater given to \<^verbatim>\<open>setTasks\<close>: it is \<open>ts\<close> when no other
  update of the task list is pending, and the list of a \<^verbatim>\<open>setTasks(data)\<close> not yet
  rendered otherwise. The resulting \<open>tasks\<close> is the state after the handler: \<open>items\<close>
  itself in the branches that do not call \<^verbatim>\<open>setTasks\<close>. \<open>put\<close> is the outcome of
  the PUT request, should the handler send one. \<^verbatim>\<open>Array.prototype.find\<close> is
  \<^const>\<open>find\<close>: the first element satisfying the predicate, or undefined (\<open>None\<close>).
\<close>

definition handleDragEnd ::
  "fetch_outcome \<Rightarrow> task list \<Rightarrow> task list \<Rightarrow> drag_event \<Rightarrow> drag_error + board" where
  "handleDragEnd put ts items event =
     (case over_id event of
        None \<Rightarrow> Inr \<lparr>tasks = items, effects = []\<rparr>
      | Some overId \<Rightarrow>
          (case (find (\<lambda>t. id t = active_id event) ts, find (\<lambda>t. id t = overId) ts) of
             (Some activeTask, Some overTask) \<Rightarrow>
               (if status activeTask = status overTask
                then (case those (reorder (active_id event) overId items) of
                        Some items' \<Rightarrow> Inr \<lparr>tasks = items', effects = []\<rparr>
                      | None \<Rightarrow>
                          Inl (UndefinedInList (reorder (active_id event) overId items)))
                else Inr \<lparr>tasks = items,
                          effects = updateTaskStatus put (active_id event) (status overTask)\<rparr>)
           | _ \<Rightarrow> Inr \<lparr>tasks = items, effects = []\<rparr>))"

section \<open>JavaScript values\<close>

text \<open>
  The live channel delivers JSON text, and the components read the decoded value with
  member access, truthiness tests, \<^verbatim>\<open>||\<close> and \<^verbatim>\<open>===\<close>. A decoded value is
  one of the JSON kinds; \<open>Undefined\<close> is what reading an absent member gives. An object
  is the list of its own members, each name once.
\<close>

datatype js =
    Undefined
  | Null
  | Bool bool
  | Num rat
  | Str string
  | Arr "js list"
  | Obj "(string \<times> js) list"

datatype js_error = TypeError

text \<open>Truthiness: undefined, null, false, 0 and the empty string are falsy.\<close>

fun truthy :: "js \<Rightarrow> bool" where
  "truthy Undefined = False"
| "truthy Null = False"
| "truthy (Bool b) = b"
| "truthy (Num n) = (n \<noteq> 0)"
| "truthy (Str s) = (s \<noteq> [])"
| "truthy (Arr vs) = True"
| "truthy (Obj ms) = True"

text \<open>
  Member access \<^verbatim>\<open>v.name\<close>, for the names the components read (\<^verbatim>\<open>type\<close>,
  \<^verbatim>\<open>data\<close>, \<^verbatim>\<open>message\<close>, \<^verbatim>\<open>agent_name\<close>), none of which a built-in
  prototype defines: on undefined and null it throws a TypeError, on an object it gives
  the member or undefined, on every other value undefined.
\<close>

fun member :: "js \<Rightarrow> string \<Rightarrow> js_error + js" where
  "member Undefined name = Inl TypeError"
| "member Null name = Inl TypeError"
| "member (Obj ms) name = (case map_of ms name of Some v \<Rightarrow> Inr v | None \<Rightarrow> Inr Undefined)"
| "member v name = Inr Undefined"

text \<open>\<^verbatim>\<open>a || b\<close>.\<close>

definition js_or :: "js \<Rightarrow> js \<Rightarrow> js" where
  "js_or a b = (if truthy a then a else b)"

section \<open>Live connection (App, connectWebSocket)\<close>

text \<open>
  The state of the App component and of the browser objects it creates: the two React
  states, the ref holding the latest socket, the sockets constructed so far with their
  ready states, the pending timeouts, the console, and whether the component is mounted.
\<close>

datatype readyState = CONNECTING | OPEN | CLOSING | CLOSED

datatype callback = ConnectWebSocket

record app =
  isConnected :: bool
  wsData :: js
  wsRef :: "nat option"
  sockets :: "readyState list"
  timers :: "(callback \<times> nat) list"
  console :: "string list"
  mounted :: bool

definition initial_app :: app where
  "initial_app =
     \<lparr>isConnected = False, wsData = Null, wsRef = None, sockets = [], timers = [],
      console = [], mounted = False\<rparr>"

text \<open>Whether \<^verbatim>\<open>new WebSocket(wsUrl)\<close> returns a socket or throws.\<close>

datatype constructor_outcome = Constructed | Throws

text \<open>
  \<^verbatim>\<open>connectWebSocket()\<close>: the new socket is stored in \<^verbatim>\<open>wsRef.current\<close> and gets
  the four handlers below; a throwing constructor is caught and logged.
\<close>

definition connectWebSocket :: "constructor_outcome \<Rightarrow> app \<Rightarrow> app" where
  "connectWebSocket ctor st =
     (case ctor of
        Constructed \<Rightarrow>
          st\<lparr>wsRef := Some (length (sockets st)), sockets := sockets st @ [CONNECTING]\<rparr>
      | Throws \<Rightarrow> st\<lparr>console := console st @ [''Failed to connect WebSocket:'']\<rparr>)"

definition onopen :: "app \<Rightarrow> app" where
  "onopen st = st\<lparr>console := console st @ [''WebSocket connected''], isConnected := True\<rparr>"

text \<open>
  \<^verbatim>\<open>onmessage\<close>: \<open>parse\<close> stands for \<^verbatim>\<open>JSON.parse\<close>, \<open>None\<close> when it throws.
\<close>

definition onmessage :: "(string \<Rightarrow> js option) \<Rightarrow> string \<Rightarrow> app \<Rightarrow> app" where
  "onmessage parse payload st =
     (case parse payload of
        Some data \<Rightarrow> st\<lparr>wsData := data\<rparr>
      | None \<Rightarrow> st\<lparr>console := console st @ [''Failed to parse WebSocket message:'']\<rparr>)"

text \<open>\<^verbatim>\<open>onclose\<close>: \<^verbatim>\<open>setTimeout(connectWebSocket, 3000)\<close> adds a pending timeout.\<close>

definition onclose :: "app \<Rightarrow> app" where
  "onclose st =
     st\<lparr>console := console st @ [''WebSocket disconnected''],
        isConnected := False,
        timers := timers st @ [(ConnectWebSocket, 3000)]\<rparr>"

definition onerror :: "app \<Rightarrow> app" where
  "onerror st = st\<lparr>console := console st @ [''WebSocket error:'']\<rparr>"

text \<open>
  The cleanup of the mount effect: \<^verbatim>\<open>if (wsRef.current) wsRef.current.close()\<close>.
  \<^verbatim>\<open>close()\<close> on a socket that is connecting or open starts its closing; on a
  closing or closed socket it does nothing.
\<close>

definition socket_close :: "nat \<Rightarrow> readyState list \<Rightarrow> readyState list" where
  "socket_close k socks =
     (if k < length socks \<and> (socks ! k = CONNECTING \<or> socks ! k = OPEN)
      then socks[k := CLOSING] else socks)"

definition cleanup :: "app \<Rightarrow> app" where
  "cleanup st =
     (case wsRef st of
        Some k \<Rightarrow> st\<lparr>sockets := socket_close k (sockets st)\<rparr>
      | None \<Rightarrow> st)"

text \<open>
  What can happen to the component: it mounts (the effect calls
  \<^verbatim>\<open>connectWebSocket\<close>), a socket opens, delivers a message, reports an error or
  closes, the oldest pending timeout fires (all timeouts have the same delay, so they
  fire in the order they were set), the component unmounts (the cleanup runs). The
  browser fires a socket's events according to its ready state: open while connecting,
  message while open, close once, on a socket that is not closed yet (a failed
  connection attempt, a lost or ended connection, or the end of a closing started by
  \<^verbatim>\<open>close()\<close>). \<open>step\<close> is \<open>None\<close> for an event that cannot happen in the state.
\<close>

datatype event =
    Mount constructor_outcome
  | SocketOpen nat
  | SocketMessage nat string
  | SocketError nat
  | SocketClose nat
  | Timeout constructor_outcome
  | Unmount

fun step :: "(string \<Rightarrow> js option) \<Rightarrow> app \<Rightarrow> event \<Rightarrow> app option" where
  "step parse st (Mount ctor) =
     (if mounted st then None else Some (connectWebSocket ctor (st\<lparr>mounted := True\<rparr>)))"
| "step parse st (SocketOpen k) =
     (if k < length (sockets st) \<and> sockets st ! k = CONNECTING
      then Some (onopen (st\<lparr>sockets := (sockets st)[k := OPEN]\<rparr>)) else None)"
| "step parse st (SocketMessage k payload) =
     (if k < length (sockets st) \<and> sockets st ! k = OPEN
      then Some (onmessage parse payload st) else None)"
| "step parse st (SocketError k) =
     (if k < length (sockets st) \<and> sockets st ! k \<noteq> CLOSED
      then Some (onerror st) else None)"
| "step parse st (SocketClose k) =
     (if k < length (sockets st) \<and> sockets st ! k \<noteq> CLOSED
      then Some (onclose (st\<lparr>sockets := (sockets st)[k := CLOSED]\<rparr>)) else None)"
| "step parse st (Timeout ctor) =
     (case timers st of
        [] \<Rightarrow> None
      | (ConnectWebSocket, delay) # pending \<Rightarrow>
          Some (connectWebSocket ctor (st\<lparr>timers := pending\<rparr>)))"
| "step parse st Unmount =
     (if mounted st then Some (cleanup (st\<lparr>mounted := False\<rparr>)) else None)"

fun run :: "(string \<Rightarrow> js option) \<Rightarrow> app \<Rightarrow> event list \<Rightarrow> app option" where
  "run parse st [] = Some st"
| "run parse st (e # es) =
     (case step parse st e of None \<Rightarrow> None | Some st' \<Rightarrow> run parse st' es)"

text \<open>
  One failed attempt seen from the socket in \<^verbatim>\<open>wsRef.current\<close>: it closes, and the
  timeout that its close handler set fires and constructs the next socket.
\<close>

definition failed_attempt :: "(string \<Rightarrow> js option) \<Rightarrow> app \<Rightarrow> app option" where
  "failed_attempt parse st =
     (case wsRef st of
        None \<Rightarrow> None
      | Some k \<Rightarrow> run parse st [SocketClose k, Timeout Constructed])"

fun failed_attempts :: "(string \<Rightarrow> js option) \<Rightarrow> nat \<Rightarrow> app \<Rightarrow> app option" where
  "failed_attempts parse 0 st = Some st"
| "failed_attempts parse (Suc n) st =
     (case failed_attempt parse st of
        None \<Rightarrow> None
      | Some st' \<Rightarrow> failed_attempts parse n st')"

section \<open>Activity log (ActivityLog)\<close>

text \<open>
  The two clock readings of the ingest branch: \<^verbatim>\<open>Date.now()\<close> in milliseconds
  and \<^verbatim>\<open>new Date().toISOString()\<close>.
\<close>

record clock =
  now_ms :: int
  now_iso :: string

text \<open>\<^verbatim>\<open>[x, ...prev].slice(0, 20)\<close>.\<close>

definition prepend_capped :: "js \<Rightarrow> js list \<Rightarrow> js list" where
  "prepend_capped x prev = take 20 (x # prev)"

definition newActivity :: "clock \<Rightarrow> js \<Rightarrow> js \<Rightarrow> js \<Rightarrow> js" where
  "newActivity clk ty msg agent =
     Obj [(''id'', Num (of_int (now_ms clk))),
          (''type'', js_or ty (Str ''info'')),
          (''message'', js_or msg (Str ''Data ingested from agent'')),
          (''agent_name'', js_or agent (Str ''Unknown'')),
          (''created_at'', Str (now_iso clk))]"

text \<open>
  The effect on \<^verbatim>\<open>wsData\<close>: from the activity list \<open>prev\<close> to the next one, or
  the TypeError that a member access throws. \<^verbatim>\<open>wsData && wsData.type === '...'\<close>
  reads \<^verbatim>\<open>wsData.type\<close> only when \<^verbatim>\<open>wsData\<close> is truthy.
\<close>

definition has_type :: "js \<Rightarrow> string \<Rightarrow> bool" where
  "has_type v name = (truthy v \<and> member v ''type'' = Inr (Str name))"

definition activityEffect :: "clock \<Rightarrow> js \<Rightarrow> js list \<Rightarrow> js_error + js list" where
  "activityEffect clk v prev =
     (if has_type v ''activity_created'' then
        (case member v ''data'' of
           Inl e \<Rightarrow> Inl e
         | Inr d \<Rightarrow> Inr (prepend_capped d prev))
      else if has_type v ''ingest_received'' then
        (case member v ''data'' of
           Inl e \<Rightarrow> Inl e
         | Inr d \<Rightarrow>
             (case (member d ''type'', member d ''message'', member d ''agent_name'') of
                (Inr ty, Inr msg, Inr agent) \<Rightarrow>
                  Inr (prepend_capped (newActivity clk ty msg agent) prev)
              | _ \<Rightarrow> Inl TypeError))
      else Inr prev)"

text \<open>
  The activity lists a sequence of messages produces, the starting list first. An
  effect that throws ends the sequence: React takes the component down.
\<close>

fun activityStates :: "js list \<Rightarrow> (clock \<times> js) list \<Rightarrow> js list list" where
  "activityStates acts [] = [acts]"
| "activityStates acts ((clk, v) # rest) =
     acts # (case activityEffect clk v acts of
               Inl e \<Rightarrow> []
             | Inr acts' \<Rightarrow> activityStates acts' rest)"

section \<open>Relative time (formatTime)\<close>

text \<open>The decimal digits of a number, as a template literal prints an integer.\<close>

fun decimal :: "nat \<Rightarrow> string" where
  "decimal n =
     (if n < 10 then [''0123456789'' ! n]
      else decimal (n div 10) @ [''0123456789'' ! (n mod 10)])"

declare decimal.simps [simp del]

definition number_toString :: "int \<Rightarrow> string" where
  "number_toString i = (if i < 0 then CHR ''-'' # decimal (nat (- i)) else decimal (nat i))"

text \<open>
  \<^verbatim>\<open>formatTime(dateString)\<close>. \<open>dateString\<close> is \<open>None\<close> for a missing or null
  \<^verbatim>\<open>created_at\<close>. \<open>parseDate\<close> stands for \<^verbatim>\<open>new Date(dateString)\<close>: the time
  in milliseconds since the epoch, or \<open>None\<close> for an invalid date.
  \<open>toLocaleDateString\<close> stands for the method of that name, which depends on the
  locale of the browser. \<open>now\<close> is the time of \<^verbatim>\<open>new Date()\<close> in milliseconds.
  The difference of two dates is a whole number of milliseconds, and
  \<^verbatim>\<open>Math.floor(diffMs / 60000)\<close> is the integer quotient rounded down. With an
  invalid date every difference is NaN and every comparison false.
\<close>

definition formatTime ::
  "(string \<Rightarrow> int option) \<Rightarrow> (int option \<Rightarrow> string) \<Rightarrow> int \<Rightarrow> string option \<Rightarrow> string" where
  "formatTime parseDate toLocaleDateString now dateString =
     (case dateString of
        None \<Rightarrow> []
      | Some s \<Rightarrow>
          (if s = [] then []
           else (case parseDate s of
                   None \<Rightarrow> toLocaleDateString None
                 | Some date \<Rightarrow>
                     (let diffMs = now - date;
                          diffMins = diffMs div 60000;
                          diffHours = diffMs div 3600000
                      in if diffMins < 1 then ''Just now''
                         else if diffMins < 60 then number_toString diffMins @ ''m ago''
                         else if diffHours < 24 then number_toString diffHours @ ''h ago''
                         else toLocaleDateString (Some date)))))"

section \<open>Notions used to state the properties\<close>


text \<open>
  The board of the spec's example scenario: task 1 in column permanent, tasks 2 and 3
  in column backlog.
\<close>

definition example_task :: "nat \<Rightarrow> string \<Rightarrow> task" where
  "example_task n s =
     \<lparr>id = n, title = ''task'', description = [], status = s, priority = ''medium'',
      task_type = ''custom'', is_recurring = 0, created_at = ''2025-01-01T00:00:00Z''\<rparr>"

definition example_tasks :: "task list" where
  "example_tasks =
     [example_task 1 ''permanent'', example_task 2 ''backlog'', example_task 3 ''backlog'']"




text \<open>
  A stand-in for \<^verbatim>\<open>JSON.parse\<close> that decodes two texts and throws on every other.
\<close>

definition example_parse :: "string \<Rightarrow> js option" where
  "example_parse s =
     (if s = ''null'' then Some Null
      else if s = ''42'' then Some (Num 42)
      else None)"

text \<open>The App after it has mounted and its first socket has opened.\<close>

definition example_connected :: app where
  "example_connected =
     \<lparr>isConnected = True, wsData = Null, wsRef = Some 0, sockets = [OPEN], timers = [],
      console = [''WebSocket connected''], mounted = True\<rparr>"

definition example_clock :: clock where
  "example_clock = \<lparr>now_ms = 1735689600000, now_iso = ''2025-01-01T00:00:00.000Z''\<rparr>"

text \<open>
  A date parser that knows one timestamp, and a date printer for one locale.
\<close>

definition example_parseDate :: "string \<Rightarrow> int option" where
  "example_parseDate s = (if s = ''2025-01-01T00:00:00.000Z'' then Some 1735689600000 else None)"

definition example_toLocaleDateString :: "int option \<Rightarrow> string" where
  "example_toLocaleDateString d =
     (case d of None \<Rightarrow> ''Invalid Date'' | Some t \<Rightarrow> (if t = 1735689600000 then ''1/1/2025'' else ''another day''))"

section \<open>Facts about findIndex and arrayMove\<close>

lemma findIndex_range: "- 1 \<le> findIndex P xs \<and> findIndex P xs < int (length xs)"
  by (induction xs) (auto simp: Let_def)













section \<open>Drops that do nothing\<close>

text \<open>
  C7. A drag whose drop target is null, or whose dragged task or target task is not in
  the task list, leaves the task list as it is and sends no request: the handler does
  not call \<^verbatim>\<open>setTasks\<close>, so the list React holds stays what it was.
\<close>

theorem handleDragEnd_noop:
  "over_id event = None
     \<or> find (\<lambda>t. id t = active_id event) ts = None
     \<or> (\<exists>overId. over_id event = Some overId \<and> find (\<lambda>t. id t = overId) ts = None)
   \<Longrightarrow> handleDragEnd put ts items event = Inr \<lparr>tasks = items, effects = []\<rparr>"
  by (auto simp: handleDragEnd_def split: option.splits)

theorem handleDragEnd_noop_witness:
  "(\<exists>overId. over_id \<lparr>active_id = 3, over_id = Some 7\<rparr> = Some overId
       \<and> find (\<lambda>t. id t = overId) example_tasks = None)
   \<and> handleDragEnd (Resolved 200) example_tasks example_tasks
        \<lparr>active_id = 3, over_id = Some 7\<rparr>
       = Inr \<lparr>tasks = example_tasks, effects = []\<rparr>"
proof -
  have h: "\<exists>overId. over_id \<lparr>active_id = 3, over_id = Some 7\<rparr> = Some overId
       \<and> find (\<lambda>t. id t = overId) example_tasks = None"
    by (simp add: example_tasks_def example_task_def)
  then have "over_id \<lparr>active_id = 3, over_id = Some 7\<rparr> = None
     \<or> find (\<lambda>t. id t = active_id \<lparr>active_id = 3, over_id = Some 7\<rparr>) example_tasks = None
     \<or> (\<exists>overId. over_id \<lparr>active_id = 3, over_id = Some 7\<rparr> = Some overId
           \<and> find (\<lambda>t. id t = overId) example_tasks = None)"
    by blast
  from h handleDragEnd_noop [OF this, of "Resolved 200" example_tasks] show ?thesis
    by blast
qed

section \<open>Reordering inside a column\<close>




section \<open>A task dropped onto itself\<close>




section \<open>Dragging into another column\<close>

text \<open>
  C3, as the spec states it, asks for the refetch of the task list whatever the outcome
  of the update request. When the request is rejected, the handler logs and does not
  refetch: dragging task 1 (permanent) onto task 3 (backlog) with a rejected request
  sends the PUT and nothing else.
\<close>

theorem handleDragEnd_rejected_no_refetch:
  "handleDragEnd Rejected example_tasks example_tasks \<lparr>active_id = 1, over_id = Some 3\<rparr>
     = Inr \<lparr>tasks = example_tasks,
            effects = [PutTask 1 [(''status'', ''backlog'')],
                       ConsoleError ''Failed to update task:'']\<rparr>
   \<and> GetTasks \<notin> set [PutTask 1 [(''status'', ''backlog'')],
                       ConsoleError ''Failed to update task:'']"
  by (simp add: handleDragEnd_def updateTaskStatus_def example_tasks_def example_task_def)

text \<open>
  C3, amended. When the dragged task and the target task are both in the list and have
  different status, the handler leaves the list as it is and sends one PUT for the
  dragged task whose body has the single member \<^verbatim>\<open>status\<close>, set to the status of
  the target. When the request resolves, whatever the HTTP status code of the response,
  the handler then requests the whole task list again; when the request is rejected, it
  logs the failure and requests nothing more.
\<close>

theorem handleDragEnd_cross_status:
  assumes a: "find (\<lambda>t. id t = active_id event) ts = Some activeTask"
    and ov: "over_id event = Some overId"
    and b: "find (\<lambda>t. id t = overId) ts = Some overTask"
    and st: "status activeTask \<noteq> status overTask"
  shows "handleDragEnd (Resolved code) ts items event
           = Inr \<lparr>tasks = items,
                  effects = [PutTask (active_id event) [(''status'', status overTask)],
                             GetTasks]\<rparr>
       \<and> handleDragEnd Rejected ts items event
           = Inr \<lparr>tasks = items,
                  effects = [PutTask (active_id event) [(''status'', status overTask)],
                             ConsoleError ''Failed to update task:'']\<rparr>"
  using a ov b st by (simp add: handleDragEnd_def updateTaskStatus_def)

theorem handleDragEnd_cross_status_witness:
  "find (\<lambda>t. id t = active_id \<lparr>active_id = 1, over_id = Some 3\<rparr>) example_tasks
     = Some (example_task 1 ''permanent'')
   \<and> find (\<lambda>t. id t = 3) example_tasks = Some (example_task 3 ''backlog'')
   \<and> status (example_task 1 ''permanent'') \<noteq> status (example_task 3 ''backlog'')
   \<and> handleDragEnd (Resolved 500) example_tasks example_tasks
        \<lparr>active_id = 1, over_id = Some 3\<rparr>
       = Inr \<lparr>tasks = example_tasks,
              effects = [PutTask 1 [(''status'', ''backlog'')], GetTasks]\<rparr>"
proof -
  let ?ev = "\<lparr>active_id = 1, over_id = Some 3\<rparr>"
  have a: "find (\<lambda>t. id t = active_id ?ev) example_tasks = Some (example_task 1 ''permanent'')"
    by (simp add: example_tasks_def example_task_def)
  have ov: "over_id ?ev = Some 3"
    by simp
  have b: "find (\<lambda>t. id t = 3) example_tasks = Some (example_task 3 ''backlog'')"
    by (simp add: example_tasks_def example_task_def)
  have st: "status (example_task 1 ''permanent'') \<noteq> status (example_task 3 ''backlog'')"
    by (simp add: example_task_def)
  from a b st handleDragEnd_cross_status [OF a ov b st, of 500 example_tasks] show ?thesis
    by (simp add: example_task_def)
qed

section \<open>Malformed messages\<close>

text \<open>
  C2. A message whose text \<^verbatim>\<open>JSON.parse\<close> rejects changes nothing but the console:
  the connected flag keeps its value and \<^verbatim>\<open>wsData\<close>, which is what the components
  receive, keeps its value. This is what the message event of every open socket does.
  (The handler makes no other check: a text that is valid JSON is forwarded whatever
  its shape.)
\<close>

theorem onmessage_malformed:
  assumes "parse payload = None"
  shows "onmessage parse payload st
           = st\<lparr>console := console st @ [''Failed to parse WebSocket message:'']\<rparr>
       \<and> isConnected (onmessage parse payload st) = isConnected st
       \<and> wsData (onmessage parse payload st) = wsData st
       \<and> (\<forall>k. k < length (sockets st) \<and> sockets st ! k = OPEN
             \<longrightarrow> step parse st (SocketMessage k payload) = Some (onmessage parse payload st))"
  using assms by (simp add: onmessage_def)

theorem onmessage_malformed_witness:
  "example_parse ''{oops'' = None
   \<and> isConnected (onmessage example_parse ''{oops'' example_connected) = True
   \<and> wsData (onmessage example_parse ''{oops'' example_connected) = Null
   \<and> step example_parse example_connected (SocketMessage 0 ''{oops'')
       = Some (example_connected
                 \<lparr>console := [''WebSocket connected'', ''Failed to parse WebSocket message:'']\<rparr>)"
proof -
  have h: "example_parse ''{oops'' = None"
    by (simp add: example_parse_def)
  from h onmessage_malformed [of example_parse "''{oops''" example_connected, OF h]
  show ?thesis
    by (simp add: example_connected_def)
qed

section \<open>Reconnection\<close>

lemma step_close:
  assumes "k < length (sockets st)" and "sockets st ! k \<noteq> CLOSED"
  shows "step parse st (SocketClose k)
           = Some (st\<lparr>sockets := (sockets st)[k := CLOSED],
                      console := console st @ [''WebSocket disconnected''],
                      isConnected := False,
                      timers := timers st @ [(ConnectWebSocket, 3000)]\<rparr>)"
  using assms by (simp add: onclose_def)

lemma step_timeout:
  assumes "timers st = t # pending"
  shows "step parse st (Timeout Constructed)
           = Some (st\<lparr>timers := pending, wsRef := Some (length (sockets st)),
                      sockets := sockets st @ [CONNECTING]\<rparr>)"
  using assms by (cases t; cases "fst t") (simp add: connectWebSocket_def)

lemma failed_attempt_result:
  assumes r: "wsRef st = Some k" and k: "k < length (sockets st)" and o: "sockets st ! k \<noteq> CLOSED"
  shows "failed_attempt parse st
           = Some (st\<lparr>sockets := (sockets st)[k := CLOSED] @ [CONNECTING],
                      console := console st @ [''WebSocket disconnected''],
                      isConnected := False,
                      timers := tl (timers st @ [(ConnectWebSocket, 3000)]),
                      wsRef := Some (length (sockets st))\<rparr>)"
proof -
  let ?st1 = "st\<lparr>sockets := (sockets st)[k := CLOSED],
                      console := console st @ [''WebSocket disconnected''],
                      isConnected := False,
                      timers := timers st @ [(ConnectWebSocket, 3000)]\<rparr>"
  have t: "timers ?st1 = hd (timers st @ [(ConnectWebSocket, 3000)]) # tl (timers st @ [(ConnectWebSocket, 3000)])"
    by simp
  have "step parse ?st1 (Timeout Constructed)
      = Some (?st1\<lparr>timers := tl (timers st @ [(ConnectWebSocket, 3000)]), wsRef := Some (length (sockets ?st1)),
                      sockets := sockets ?st1 @ [CONNECTING]\<rparr>)"
    by (rule step_timeout [OF t])
  with step_close [OF k o, of parse] r show ?thesis
    by (simp add: failed_attempt_def)
qed

lemma drop_rotate:
  "drop n (tl (ts @ [x]) @ replicate n x) = drop (Suc n) (ts @ replicate (Suc n) x)"
proof -
  have "tl (ts @ [x]) @ replicate n x = tl (ts @ x # replicate n x)"
    by (cases ts) simp_all
  then have "drop n (tl (ts @ [x]) @ replicate n x) = drop n (tl (ts @ x # replicate n x))"
    by (rule arg_cong)
  also have "\<dots> = drop (Suc n) (ts @ x # replicate n x)"
    by (simp only: drop_Suc)
  finally show ?thesis
    by (simp only: replicate_Suc)
qed

lemma failed_attempts_result:
  assumes "wsRef st = Some k" and "k < length (sockets st)" and "sockets st ! k \<noteq> CLOSED"
  shows "\<exists>st'. failed_attempts parse n st = Some st'
           \<and> length (sockets st') = length (sockets st) + n
           \<and> timers st' = drop n (timers st @ replicate n (ConnectWebSocket, 3000))
           \<and> (0 < n \<longrightarrow> \<not> isConnected st'
                 \<and> wsRef st' = Some (length (sockets st) + n - 1)
                 \<and> sockets st' ! (length (sockets st) + n - 1) = CONNECTING)"
  using assms
proof (induction n arbitrary: st k)
  case 0
  then show ?case by simp
next
  case (Suc n)
  let ?st1 = "st\<lparr>sockets := (sockets st)[k := CLOSED] @ [CONNECTING],
                      console := console st @ [''WebSocket disconnected''],
                      isConnected := False,
                      timers := tl (timers st @ [(ConnectWebSocket, 3000)]),
                      wsRef := Some (length (sockets st))\<rparr>"
  have fa: "failed_attempt parse st = Some ?st1"
    by (rule failed_attempt_result [OF Suc.prems])
  have p1: "wsRef ?st1 = Some (length (sockets st))" by simp
  have p2: "length (sockets st) < length (sockets ?st1)" by simp
  have p3: "sockets ?st1 ! length (sockets st) \<noteq> CLOSED"
    by (simp add: nth_append)
  from Suc.IH [OF p1 p2 p3] obtain st' where
    st': "failed_attempts parse n ?st1 = Some st'"
      "length (sockets st') = length (sockets ?st1) + n"
      "timers st' = drop n (timers ?st1 @ replicate n (ConnectWebSocket, 3000))"
      "0 < n \<longrightarrow> \<not> isConnected st'
                 \<and> wsRef st' = Some (length (sockets ?st1) + n - 1)
                 \<and> sockets st' ! (length (sockets ?st1) + n - 1) = CONNECTING"
    by blast
  have n0: "n = 0 \<Longrightarrow> st' = ?st1"
    using st'(1) by simp
  have a: "failed_attempts parse (Suc n) st = Some st'"
    using fa st'(1) by simp
  have b: "length (sockets st') = length (sockets st) + Suc n"
    using st'(2) by simp
  have c: "timers st' = drop (Suc n) (timers st @ replicate (Suc n) (ConnectWebSocket, 3000))"
    using st'(3) drop_rotate [of n "timers st" "(ConnectWebSocket, 3000)"] by simp
  have d: "\<not> isConnected st' \<and> wsRef st' = Some (length (sockets st) + Suc n - 1)
        \<and> sockets st' ! (length (sockets st) + Suc n - 1) = CONNECTING"
  proof (cases "n = 0")
    case True
    with n0 show ?thesis by (simp add: nth_append)
  next
    case False
    with st'(4) show ?thesis by simp
  qed
  from a b c d show ?case by blast
qed

text \<open>
  C5. When the socket in \<^verbatim>\<open>wsRef.current\<close> closes, the close handler clears the
  connected flag and adds exactly one timeout, for \<^verbatim>\<open>connectWebSocket\<close> after
  3000 ms, to the pending ones. The handler reads nothing of the state, so the delay
  is the same at every close and no count of attempts stops it: any number \<open>n\<close> of
  attempts in a row can fail, each constructs one more socket, and after them the
  pending timeouts are the earlier ones followed by \<open>n\<close> timeouts of 3000 ms, without
  the \<open>n\<close> that have fired (none is pending when none was pending at the start). The
  latest socket is then connecting; when it opens, the flag is set and no timeout is
  added. An attempt here is a timeout that fires and constructs a socket: the address
  is computed from the location of the page and is the same at every attempt.
\<close>

theorem reconnect_after_close:
  assumes r: "wsRef st = Some k" and k: "k < length (sockets st)"
    and o: "sockets st ! k \<noteq> CLOSED"
  shows "(\<exists>st1. step parse st (SocketClose k) = Some st1 \<and> \<not> isConnected st1
              \<and> timers st1 = timers st @ [(ConnectWebSocket, 3000)])
       \<and> (\<exists>st'. failed_attempts parse n st = Some st'
              \<and> length (sockets st') = length (sockets st) + n
              \<and> timers st' = drop n (timers st @ replicate n (ConnectWebSocket, 3000))
              \<and> (0 < n \<longrightarrow> \<not> isConnected st'
                    \<and> wsRef st' = Some (length (sockets st) + n - 1)
                    \<and> sockets st' ! (length (sockets st) + n - 1) = CONNECTING
                    \<and> (\<exists>st''. step parse st' (SocketOpen (length (sockets st) + n - 1)) = Some st''
                          \<and> isConnected st'' \<and> timers st'' = timers st')))"
proof -
  have first: "\<exists>st1. step parse st (SocketClose k) = Some st1 \<and> \<not> isConnected st1
              \<and> timers st1 = timers st @ [(ConnectWebSocket, 3000)]"
    using step_close [OF k o, of parse] by simp
  from failed_attempts_result [OF r k o, of parse n] obtain st' where
    st': "failed_attempts parse n st = Some st'"
      "length (sockets st') = length (sockets st) + n"
      "timers st' = drop n (timers st @ replicate n (ConnectWebSocket, 3000))"
      "0 < n \<longrightarrow> \<not> isConnected st'
            \<and> wsRef st' = Some (length (sockets st) + n - 1)
            \<and> sockets st' ! (length (sockets st) + n - 1) = CONNECTING"
    by blast
  have opens: "0 < n \<longrightarrow> (\<exists>st''. step parse st' (SocketOpen (length (sockets st) + n - 1)) = Some st''
                          \<and> isConnected st'' \<and> timers st'' = timers st')"
    using st'(2) st'(4) by (simp add: onopen_def)
  from first st' opens show ?thesis
    by blast
qed

theorem reconnect_after_close_witness:
  "wsRef example_connected = Some 0 \<and> 0 < length (sockets example_connected)
   \<and> sockets example_connected ! 0 \<noteq> CLOSED
   \<and> step example_parse example_connected (SocketClose 0)
       = Some \<lparr>isConnected = False, wsData = Null, wsRef = Some 0, sockets = [CLOSED],
               timers = [(ConnectWebSocket, 3000)],
               console = [''WebSocket connected'', ''WebSocket disconnected''],
               mounted = True\<rparr>
   \<and> (\<exists>st'. failed_attempts example_parse 3 example_connected = Some st'
          \<and> length (sockets st') = 4 \<and> timers st' = [] \<and> \<not> isConnected st'
          \<and> wsRef st' = Some 3 \<and> sockets st' ! 3 = CONNECTING)"
proof -
  have r: "wsRef example_connected = Some 0"
    by (simp add: example_connected_def)
  have k: "0 < length (sockets example_connected)"
    by (simp add: example_connected_def)
  have o: "sockets example_connected ! 0 \<noteq> CLOSED"
    by (simp add: example_connected_def)
  have c: "step example_parse example_connected (SocketClose 0)
       = Some \<lparr>isConnected = False, wsData = Null, wsRef = Some 0, sockets = [CLOSED],
               timers = [(ConnectWebSocket, 3000)],
               console = [''WebSocket connected'', ''WebSocket disconnected''],
               mounted = True\<rparr>"
    by (simp add: example_connected_def onclose_def)
  have l: "length (sockets example_connected) = 1" "timers example_connected = []"
    by (simp_all add: example_connected_def)
  from reconnect_after_close [OF r k o, of example_parse 3] obtain st' where
    "failed_attempts example_parse 3 example_connected = Some st'"
    "length (sockets st') = length (sockets example_connected) + 3"
    "timers st' = drop 3 (timers example_connected @ replicate 3 (ConnectWebSocket, 3000))"
    "\<not> isConnected st'"
    "wsRef st' = Some (length (sockets example_connected) + 3 - 1)"
    "sockets st' ! (length (sockets example_connected) + 3 - 1) = CONNECTING"
    by auto
  with l have "failed_attempts example_parse 3 example_connected = Some st'
          \<and> length (sockets st') = 4 \<and> timers st' = [] \<and> \<not> isConnected st'
          \<and> wsRef st' = Some 3 \<and> sockets st' ! 3 = CONNECTING"
    by simp
  with r k o c show ?thesis
    by blast
qed

section \<open>Closing on unmount\<close>

text \<open>
  C9. The close handler adds its timeout in every state, mounted or not: it tests
  nothing. So when the component unmounts while its socket is connecting or open, the
  cleanup's \<^verbatim>\<open>close()\<close> puts the socket into closing, the socket's close event
  runs the same handler, which adds a timeout of 3000 ms, and when a timeout fires a
  new socket is constructed although the component is no longer mounted.
\<close>

theorem close_on_unmount_reconnects:
  assumes m: "mounted st" and r: "wsRef st = Some k" and k: "k < length (sockets st)"
    and o: "sockets st ! k = CONNECTING \<or> sockets st ! k = OPEN"
  shows "timers (onclose s) = timers s @ [(ConnectWebSocket, 3000)]
       \<and> mounted (onclose s) = mounted s
       \<and> (\<exists>st1 st2 st3.
            step parse st Unmount = Some st1
          \<and> \<not> mounted st1 \<and> sockets st1 ! k = CLOSING \<and> timers st1 = timers st
          \<and> step parse st1 (SocketClose k) = Some st2
          \<and> \<not> mounted st2 \<and> timers st2 = timers st @ [(ConnectWebSocket, 3000)]
          \<and> step parse st2 (Timeout Constructed) = Some st3
          \<and> \<not> mounted st3 \<and> length (sockets st3) = Suc (length (sockets st))
          \<and> wsRef st3 = Some (length (sockets st))
          \<and> sockets st3 ! length (sockets st) = CONNECTING)"
proof -
  let ?st1 = "st\<lparr>mounted := False, sockets := (sockets st)[k := CLOSING]\<rparr>"
  let ?st2 = "?st1\<lparr>sockets := (sockets ?st1)[k := CLOSED],
                      console := console ?st1 @ [''WebSocket disconnected''],
                      isConnected := False,
                      timers := timers ?st1 @ [(ConnectWebSocket, 3000)]\<rparr>"
  let ?t = "hd (timers st @ [(ConnectWebSocket, 3000)])"
  let ?pending = "tl (timers st @ [(ConnectWebSocket, 3000)])"
  let ?st3 = "?st2\<lparr>timers := ?pending, wsRef := Some (length (sockets ?st2)),
                      sockets := sockets ?st2 @ [CONNECTING]\<rparr>"
  have h: "timers (onclose s) = timers s @ [(ConnectWebSocket, 3000)]
       \<and> mounted (onclose s) = mounted s"
    by (simp add: onclose_def)
  have u: "step parse st Unmount = Some ?st1"
    using m r k o by (auto simp: cleanup_def socket_close_def)
  have k1: "k < length (sockets ?st1)" and o1: "sockets ?st1 ! k \<noteq> CLOSED"
    using k by simp_all
  have c: "step parse ?st1 (SocketClose k) = Some ?st2"
    by (rule step_close [OF k1 o1])
  have t: "timers ?st2 = ?t # ?pending"
    by simp
  have f: "step parse ?st2 (Timeout Constructed) = Some ?st3"
    by (rule step_timeout [OF t])
  have p1: "\<not> mounted ?st1 \<and> sockets ?st1 ! k = CLOSING \<and> timers ?st1 = timers st"
    using k by simp
  have p2: "\<not> mounted ?st2 \<and> timers ?st2 = timers st @ [(ConnectWebSocket, 3000)]"
    by simp
  have p3: "\<not> mounted ?st3 \<and> length (sockets ?st3) = Suc (length (sockets st))
          \<and> wsRef ?st3 = Some (length (sockets st))
          \<and> sockets ?st3 ! length (sockets st) = CONNECTING"
    by (simp add: nth_append)
  from h u c f p1 p2 p3 show ?thesis
    by blast
qed

theorem close_on_unmount_reconnects_witness:
  "mounted example_connected \<and> wsRef example_connected = Some 0
   \<and> 0 < length (sockets example_connected)
   \<and> (sockets example_connected ! 0 = CONNECTING \<or> sockets example_connected ! 0 = OPEN)
   \<and> run example_parse example_connected [Unmount, SocketClose 0, Timeout Constructed]
       = Some \<lparr>isConnected = False, wsData = Null, wsRef = Some 1,
               sockets = [CLOSED, CONNECTING], timers = [],
               console = [''WebSocket connected'', ''WebSocket disconnected''],
               mounted = False\<rparr>"
proof -
  have m: "mounted example_connected"
    by (simp add: example_connected_def)
  have r: "wsRef example_connected = Some 0"
    by (simp add: example_connected_def)
  have k: "0 < length (sockets example_connected)"
    by (simp add: example_connected_def)
  have o: "sockets example_connected ! 0 = CONNECTING \<or> sockets example_connected ! 0 = OPEN"
    by (simp add: example_connected_def)
  have e: "run example_parse example_connected [Unmount, SocketClose 0, Timeout Constructed]
       = Some \<lparr>isConnected = False, wsData = Null, wsRef = Some 1,
               sockets = [CLOSED, CONNECTING], timers = [],
               console = [''WebSocket connected'', ''WebSocket disconnected''],
               mounted = False\<rparr>"
    by (simp add: example_connected_def cleanup_def socket_close_def onclose_def
        connectWebSocket_def)
  from m r k o e close_on_unmount_reconnects [OF m r k o, of example_connected example_parse]
  show ?thesis
    by blast
qed

section \<open>The activity log\<close>

lemma has_type_member: "has_type v name \<Longrightarrow> \<exists>d. member v ''data'' = Inr d"
  by (cases v) (auto simp: has_type_def split: option.splits)

lemma member_defined: "d \<noteq> Undefined \<Longrightarrow> d \<noteq> Null \<Longrightarrow> \<exists>x. member d name = Inr x"
  by (cases d) (auto split: option.splits)

lemma has_type_distinct:
  "has_type v ''ingest_received'' \<Longrightarrow> \<not> has_type v ''activity_created''"
  by (auto simp: has_type_def)

lemma length_prepend_capped: "length (prepend_capped x prev) \<le> 20"
  by (simp add: prepend_capped_def)

lemma activityEffect_length:
  "length prev \<le> 20 \<Longrightarrow> activityEffect clk v prev = Inr acts \<Longrightarrow> length acts \<le> 20"
  by (auto simp: activityEffect_def length_prepend_capped split: if_splits sum.splits)

lemma activityStates_length:
  "length init \<le> 20 \<Longrightarrow> acts \<in> set (activityStates init msgs) \<Longrightarrow> length acts \<le> 20"
proof (induction msgs arbitrary: init)
  case Nil
  then show ?case by simp
next
  case (Cons m msgs)
  obtain clk v where m: "m = (clk, v)" by (cases m)
  show ?case
  proof (cases "activityEffect clk v init")
    case (Inl e)
    with Cons.prems m show ?thesis by simp
  next
    case (Inr acts')
    with Cons.prems(1) have "length acts' \<le> 20"
      by (auto dest: activityEffect_length)
    from Cons.IH [OF this] Cons.prems m Inr show ?thesis
      by auto
  qed
qed

lemma activityEffect_entry:
  assumes "has_type v ''activity_created'' \<or> has_type v ''ingest_received''"
    and "activityEffect clk v prev = Inr acts"
  shows "\<exists>entry. acts = prepend_capped entry prev"
  using assms
  by (auto simp: activityEffect_def split: if_splits sum.splits)

lemma prepend_capped_cases:
  "(length prev < 20 \<longrightarrow> prepend_capped x prev = x # prev)
 \<and> (length prev = 20 \<longrightarrow> prepend_capped x prev = x # butlast prev)"
  by (simp add: prepend_capped_def butlast_conv_take)

lemma activity_created_effect:
  assumes "has_type v ''activity_created''"
  shows "\<exists>d. member v ''data'' = Inr d \<and> activityEffect clk v prev = Inr (prepend_capped d prev)"
  using assms has_type_member [OF assms]
  by (auto simp: activityEffect_def)

text \<open>
  C4. Starting from a list of at most 20 activities, every list that a sequence of
  messages produces has at most 20 entries. An \<^verbatim>\<open>activity_created\<close> message puts
  its \<^verbatim>\<open>data\<close> in front of the list; whenever the effect on an
  \<^verbatim>\<open>activity_created\<close> or \<^verbatim>\<open>ingest_received\<close> message yields a list, that
  list is an entry in front of the previous list, cut to 20: the previous list as it
  was behind the entry when it had fewer than 20 entries, and without its last
  (oldest) entry when it had 20.
\<close>

theorem activity_log_capped:
  assumes "length init \<le> 20"
  shows "(\<forall>acts \<in> set (activityStates init msgs). length acts \<le> 20)
       \<and> (has_type v ''activity_created'' \<longrightarrow>
            (\<exists>d. member v ''data'' = Inr d
               \<and> activityEffect clk v prev = Inr (take 20 (d # prev))))
       \<and> ((has_type v ''activity_created'' \<or> has_type v ''ingest_received'')
            \<and> activityEffect clk v prev = Inr next \<longrightarrow>
            (\<exists>entry. next = take 20 (entry # prev)
               \<and> (length prev < 20 \<longrightarrow> next = entry # prev)
               \<and> (length prev = 20 \<longrightarrow> next = entry # butlast prev)))"
proof -
  have cap: "\<forall>acts \<in> set (activityStates init msgs). length acts \<le> 20"
    using assms by (blast intro: activityStates_length)
  have created: "has_type v ''activity_created'' \<longrightarrow>
            (\<exists>d. member v ''data'' = Inr d
               \<and> activityEffect clk v prev = Inr (take 20 (d # prev)))"
    using activity_created_effect [of v clk prev] by (simp add: prepend_capped_def)
  have entry: "(has_type v ''activity_created'' \<or> has_type v ''ingest_received'')
            \<and> activityEffect clk v prev = Inr next \<longrightarrow>
            (\<exists>entry. next = take 20 (entry # prev)
               \<and> (length prev < 20 \<longrightarrow> next = entry # prev)
               \<and> (length prev = 20 \<longrightarrow> next = entry # butlast prev))"
  proof
    assume a: "(has_type v ''activity_created'' \<or> has_type v ''ingest_received'')
            \<and> activityEffect clk v prev = Inr next"
    then obtain entry where e: "next = prepend_capped entry prev"
      using activityEffect_entry by blast
    with prepend_capped_cases [of prev entry]
    show "\<exists>entry. next = take 20 (entry # prev)
               \<and> (length prev < 20 \<longrightarrow> next = entry # prev)
               \<and> (length prev = 20 \<longrightarrow> next = entry # butlast prev)"
      by (auto simp: prepend_capped_def)
  qed
  from cap created entry show ?thesis
    by blast
qed

text \<open>A full list of 20 entries receives a 21st: the new entry is first, the oldest is gone.\<close>

theorem activity_log_capped_witness:
  "length (map (\<lambda>i. Num (of_nat i)) [0..<20]) \<le> 20
   \<and> activityStates (map (\<lambda>i. Num (of_nat i)) [0..<20])
        [(example_clock, Obj [(''type'', Str ''activity_created''), (''data'', Str ''new'')])]
       = [map (\<lambda>i. Num (of_nat i)) [0..<20],
          Str ''new'' # map (\<lambda>i. Num (of_nat i)) [0..<19]]
   \<and> length (Str ''new'' # map (\<lambda>i. Num (of_nat i)) [0..<19]) = 20"
proof -
  let ?init = "map (\<lambda>i. Num (of_nat i)) [0..<20]"
  let ?v = "Obj [(''type'', Str ''activity_created''), (''data'', Str ''new'')]"
  have h: "length ?init \<le> 20"
    by simp
  have t: "has_type ?v ''activity_created''"
    by (simp add: has_type_def)
  have b: "butlast ?init = map (\<lambda>i. Num (of_nat i)) [0..<19]"
    by (simp add: butlast_conv_take take_map)
  from activity_log_capped [OF h, of "[]" ?v example_clock ?init "Str ''new'' # butlast ?init"] t
  have "activityEffect example_clock ?v ?init = Inr (take 20 (Str ''new'' # ?init))"
    by (simp add: has_type_def)
  then have "activityEffect example_clock ?v ?init
      = Inr (Str ''new'' # map (\<lambda>i. Num (of_nat i)) [0..<19])"
    by (simp add: take_map)
  then show ?thesis
    by simp
qed

section \<open>Ingest messages\<close>

text \<open>
  C10, as stated, speaks of every message of type \<^verbatim>\<open>ingest_received\<close>. The effect
  reads \<^verbatim>\<open>wsData.data.type\<close> without testing \<^verbatim>\<open>wsData.data\<close>: on a message
  that has no \<^verbatim>\<open>data\<close> member it throws a TypeError and no entry is made.
\<close>

theorem ingest_without_data_throws:
  "has_type (Obj [(''type'', Str ''ingest_received'')]) ''ingest_received''
   \<and> activityEffect example_clock (Obj [(''type'', Str ''ingest_received'')]) [] = Inl TypeError"
  by (simp add: has_type_def activityEffect_def)

text \<open>
  C10, amended. For every message of type \<^verbatim>\<open>ingest_received\<close> whose \<^verbatim>\<open>data\<close>
  is present and not null, the effect makes the entry itself: its \<^verbatim>\<open>id\<close> is the
  clock reading in milliseconds, its \<^verbatim>\<open>type\<close>, \<^verbatim>\<open>message\<close> and
  \<^verbatim>\<open>agent_name\<close> are those of the data when truthy and otherwise (absent or
  falsy) 'info', 'Data ingested from agent' and 'Unknown', its \<^verbatim>\<open>created_at\<close> is
  the clock reading as ISO text; the entry goes in front of the list, which is cut to
  20 entries.
\<close>

theorem ingest_received_effect:
  assumes t: "has_type v ''ingest_received''"
    and d: "member v ''data'' = Inr d"
    and u: "d \<noteq> Undefined" and n: "d \<noteq> Null"
  shows "\<exists>ty msg agent.
           member d ''type'' = Inr ty \<and> member d ''message'' = Inr msg
         \<and> member d ''agent_name'' = Inr agent
         \<and> activityEffect clk v prev
             = Inr (take 20
                 (Obj [(''id'', Num (of_int (now_ms clk))),
                       (''type'', if truthy ty then ty else Str ''info''),
                       (''message'', if truthy msg then msg else Str ''Data ingested from agent''),
                       (''agent_name'', if truthy agent then agent else Str ''Unknown''),
                       (''created_at'', Str (now_iso clk))] # prev))"
proof -
  from member_defined [OF u n] obtain ty where ty: "member d ''type'' = Inr ty" by blast
  from member_defined [OF u n] obtain msg where msg: "member d ''message'' = Inr msg" by blast
  from member_defined [OF u n] obtain agent where ag: "member d ''agent_name'' = Inr agent" by blast
  from t have nt: "\<not> has_type v ''activity_created''"
    by (rule has_type_distinct)
  have "activityEffect clk v prev = Inr (prepend_capped (newActivity clk ty msg agent) prev)"
    using t nt d ty msg ag by (simp add: activityEffect_def)
  with ty msg ag show ?thesis
    by (simp add: prepend_capped_def newActivity_def js_or_def)
qed

theorem ingest_received_effect_witness:
  "has_type (Obj [(''type'', Str ''ingest_received''),
                  (''data'', Obj [(''type'', Str []), (''message'', Str ''scan done'')])])
     ''ingest_received''
   \<and> activityEffect example_clock
        (Obj [(''type'', Str ''ingest_received''),
              (''data'', Obj [(''type'', Str []), (''message'', Str ''scan done'')])])
        [Str ''older'']
       = Inr [Obj [(''id'', Num 1735689600000),
                   (''type'', Str ''info''),
                   (''message'', Str ''scan done''),
                   (''agent_name'', Str ''Unknown''),
                   (''created_at'', Str ''2025-01-01T00:00:00.000Z'')],
              Str ''older'']"
proof -
  let ?d = "Obj [(''type'', Str []), (''message'', Str ''scan done'')]"
  let ?v = "Obj [(''type'', Str ''ingest_received''), (''data'', ?d)]"
  have t: "has_type ?v ''ingest_received''"
    by (simp add: has_type_def)
  have d: "member ?v ''data'' = Inr ?d"
    by simp
  have u: "?d \<noteq> Undefined" and n: "?d \<noteq> Null"
    by simp_all
  from t ingest_received_effect [OF t d u n, of example_clock "[Str ''older'']"] show ?thesis
    by (simp add: example_clock_def)
qed

section \<open>Relative time\<close>

text \<open>
  C6. For a non-empty \<^verbatim>\<open>created_at\<close> that is a timestamp (the date parser gives
  its time), with the elapsed time \<open>now - date\<close> in milliseconds: under one minute
  the result is 'Just now'; from one minute and under 60 minutes it is the whole
  minutes elapsed followed by 'm ago'; from one hour and under 24 hours the whole hours
  elapsed followed by 'h ago'; from 24 hours on the date as the locale prints it.
\<close>

theorem formatTime_buckets:
  assumes "s \<noteq> []" and "parseDate s = Some date"
  shows "(now - date < 60000 \<longrightarrow>
            formatTime parseDate toLocaleDateString now (Some s) = ''Just now'')
       \<and> (60000 \<le> now - date \<and> now - date < 3600000 \<longrightarrow>
            formatTime parseDate toLocaleDateString now (Some s)
              = number_toString ((now - date) div 60000) @ ''m ago'')
       \<and> (3600000 \<le> now - date \<and> now - date < 86400000 \<longrightarrow>
            formatTime parseDate toLocaleDateString now (Some s)
              = number_toString ((now - date) div 3600000) @ ''h ago'')
       \<and> (86400000 \<le> now - date \<longrightarrow>
            formatTime parseDate toLocaleDateString now (Some s)
              = toLocaleDateString (Some date))"
proof -
  have m1: "(now - date) div 60000 < 1 \<longleftrightarrow> now - date < 60000" by linarith
  have m60: "(now - date) div 60000 < 60 \<longleftrightarrow> now - date < 3600000" by linarith
  have h24: "(now - date) div 3600000 < 24 \<longleftrightarrow> now - date < 86400000" by linarith
  show ?thesis
    using assms by (simp add: formatTime_def Let_def m1 m60 h24)
qed

text \<open>The spec's examples: 30 seconds, 5 minutes, 3 hours and 2 days after the timestamp.\<close>

theorem formatTime_buckets_witness:
  "''2025-01-01T00:00:00.000Z'' \<noteq> []
   \<and> example_parseDate ''2025-01-01T00:00:00.000Z'' = Some 1735689600000
   \<and> formatTime example_parseDate example_toLocaleDateString (1735689600000 + 30000)
        (Some ''2025-01-01T00:00:00.000Z'') = ''Just now''
   \<and> formatTime example_parseDate example_toLocaleDateString (1735689600000 + 300000)
        (Some ''2025-01-01T00:00:00.000Z'') = ''5m ago''
   \<and> formatTime example_parseDate example_toLocaleDateString (1735689600000 + 10800000)
        (Some ''2025-01-01T00:00:00.000Z'') = ''3h ago''
   \<and> formatTime example_parseDate example_toLocaleDateString (1735689600000 + 172800000)
        (Some ''2025-01-01T00:00:00.000Z'') = ''1/1/2025''"
proof -
  let ?s = "''2025-01-01T00:00:00.000Z''"
  have ne: "?s \<noteq> []"
    by simp
  have p: "example_parseDate ?s = Some 1735689600000"
    by (simp add: example_parseDate_def)
  have five: "number_toString 5 = ''5''" and three: "number_toString 3 = ''3''"
    by (simp_all add: number_toString_def decimal.simps [of 5] decimal.simps [of 3])
  have loc: "example_toLocaleDateString (Some 1735689600000) = ''1/1/2025''"
    by (simp add: example_toLocaleDateString_def)
  from formatTime_buckets [where parseDate = example_parseDate and now = "1735689600000 + 30000"
      and toLocaleDateString = example_toLocaleDateString, OF ne p]
  have a: "formatTime example_parseDate example_toLocaleDateString (1735689600000 + 30000)
        (Some ?s) = ''Just now''"
    by simp
  from formatTime_buckets [where parseDate = example_parseDate and now = "1735689600000 + 300000"
      and toLocaleDateString = example_toLocaleDateString, OF ne p]
  have b: "formatTime example_parseDate example_toLocaleDateString (1735689600000 + 300000)
        (Some ?s) = ''5m ago''"
    by (simp add: five)
  from formatTime_buckets [where parseDate = example_parseDate and now = "1735689600000 + 10800000"
      and toLocaleDateString = example_toLocaleDateString, OF ne p]
  have c: "formatTime example_parseDate example_toLocaleDateString (1735689600000 + 10800000)
        (Some ?s) = ''3h ago''"
    by (simp add: three)
  from formatTime_buckets [where parseDate = example_parseDate and now = "1735689600000 + 172800000"
      and toLocaleDateString = example_toLocaleDateString, OF ne p]
  have d: "formatTime example_parseDate example_toLocaleDateString (1735689600000 + 172800000)
        (Some ?s) = ''1/1/2025''"
    by (simp add: loc)
  from ne p a b c d show ?thesis
    by blast
qed

end
